theory Spec2Isabelle
  imports Main "HOL-Library.Multiset"
begin

section \<open>MAESTRO multiome-barcode-map: the barcode reconciliation pipeline\<close>

text \<open>
  The development embeds \<^verbatim>\<open>barcodemap\<close> of \<^verbatim>\<open>MAESTRO/Multiome_BarcodeMap.py\<close>.
  Python exceptions are values of \<open>error\<close>; a statement that raises ends the run with
  \<open>Inl\<close> of the exception, in the source's evaluation order.

  Three points of the source shape the model.
  \<^item> The function reads the two barcode-library files into
    \<^verbatim>\<open>atac_barcode_lib_list\<close> and \<^verbatim>\<open>rna_barcode_lib_list\<close> (lines 146-158) and then
    builds both dictionaries from the names \<^verbatim>\<open>atac\<close> and \<^verbatim>\<open>rna\<close> (lines 160-161),
    which are neither parameters nor locals. Line 176 reads \<^verbatim>\<open>feature\<close> and
    \<^verbatim>\<open>passed_gene\<close> in the same way. Python resolves such names in the module's
    globals, which here come from two star imports of modules that are not part of
    the repository. The record \<open>globals\<close> carries these bindings; an unbound name is
    \<open>None\<close> and raises \<open>NameError\<close>.
  \<^item> \<^verbatim>\<open>list(set(a) & set(b))\<close> enumerates a hash set. The enumeration order is the
    parameter \<open>iter_order\<close>, applied to the duplicate-free list of common elements;
    the theorems assume only that it permutes its argument.
  \<^item> The readers and writers (\<^verbatim>\<open>read_10X_h5\<close>, \<^verbatim>\<open>write_10X_h5\<close>, ...) are outside the
    repository. The model starts from the loaded matrices and lists and records each
    writer call with its arguments. A matrix is a dense numpy array or a scipy
    \<^verbatim>\<open>csc_matrix\<close> (the plain format builds the latter, lines 104 and 111), with its
    column count and its list of rows (features are rows, cells are columns).
  The final statement of the source (line 184) ends in a stray colon; the model
  takes the call as written before the colon.
\<close>

subsection \<open>Errors and Python primitives\<close>

datatype error =
    NameError string
  | KeyError string
  | ValueError string
  | IndexError
  | UnicodeDecodeError
  | UnicodeEncodeError

text \<open>\<^verbatim>\<open>[f(i) for i in xs]\<close> where \<open>f\<close> may raise: the first exception ends the loop.\<close>

fun comprehension :: "('a \<Rightarrow> error + 'b) \<Rightarrow> 'a list \<Rightarrow> error + 'b list" where
  "comprehension f [] = Inr []"
| "comprehension f (x # xs) =
     (case f x of
        Inl e \<Rightarrow> Inl e
      | Inr y \<Rightarrow> (case comprehension f xs of Inl e \<Rightarrow> Inl e | Inr ys \<Rightarrow> Inr (y # ys)))"

text \<open>\<^verbatim>\<open>dict(pairs)\<close>: the pairs are inserted in order, a later pair overwrites an
  earlier one with the same key. \<^verbatim>\<open>zip\<close> stops at the shorter list, as \<open>zip\<close> does.\<close>

definition dict :: "('k \<times> 'v) list \<Rightarrow> ('k \<rightharpoonup> 'v)" where
  "dict ps = fold (\<lambda>(k, v) m. m(k \<mapsto> v)) ps Map.empty"

text \<open>\<^verbatim>\<open>d[k]\<close>: \<^verbatim>\<open>KeyError(k)\<close> for a missing key.\<close>

definition getitem :: "(string \<rightharpoonup> 'v) \<Rightarrow> string \<Rightarrow> error + 'v" where
  "getitem d k = (case d k of None \<Rightarrow> Inl (KeyError k) | Some v \<Rightarrow> Inr v)"

text \<open>\<^verbatim>\<open>xs.index(x)\<close>: the first position of \<open>x\<close>, \<^verbatim>\<open>ValueError\<close> when \<open>x\<close> is not in
  the list (the payload is the item looked for).\<close>

fun list_index :: "string list \<Rightarrow> string \<Rightarrow> error + nat" where
  "list_index [] x = Inl (ValueError x)"
| "list_index (y # ys) x =
     (if y = x then Inr 0
      else (case list_index ys x of Inl e \<Rightarrow> Inl e | Inr i \<Rightarrow> Inr (Suc i)))"

text \<open>\<^verbatim>\<open>list(set(xs) & set(ys))\<close>.\<close>

definition set_and_list ::
  "(string list \<Rightarrow> string list) \<Rightarrow> string list \<Rightarrow> string list \<Rightarrow> string list" where
  "set_and_list iter_order xs ys = iter_order (remdups (filter (\<lambda>x. x \<in> set ys) xs))"

subsection \<open>Matrices\<close>

record 'a matrix =
  sparse :: bool
  ncols :: nat
  rows :: "'a list list"

definition shape :: "'a matrix \<Rightarrow> nat \<times> nat" where
  "shape m = (length (rows m), ncols m)"

text \<open>\<^verbatim>\<open>m[np.array(idx), :]\<close>: the first axis is indexed, so the result has one row per
  index; an index beyond the last row raises \<^verbatim>\<open>IndexError\<close>. For an empty index list
  \<^verbatim>\<open>np.array([])\<close> is an array of floats: a \<^verbatim>\<open>csc_matrix\<close> accepts it and selects no
  row, a dense array raises \<^verbatim>\<open>IndexError\<close>.\<close>

definition select_rows :: "'a matrix \<Rightarrow> nat list \<Rightarrow> error + 'a matrix" where
  "select_rows m idx =
     (if sparse m then
        (if list_all (\<lambda>i. i < length (rows m)) idx
         then Inr (m\<lparr>rows := map (\<lambda>i. rows m ! i) idx\<rparr>)
         else Inl IndexError)
      else if idx = [] then Inl IndexError
      else if list_all (\<lambda>i. i < length (rows m)) idx
      then Inr (m\<lparr>rows := map (\<lambda>i. rows m ! i) idx\<rparr>)
      else Inl IndexError)"

text \<open>\<^verbatim>\<open>np.vstack((a, b))\<close> first makes each operand a two-dimensional array. A dense
  array is taken as it is. A \<^verbatim>\<open>csc_matrix\<close> is not an array: it becomes a 1 x 1 array
  of objects whose only cell is the matrix itself. The rows of the two arrays are then
  appended; \<^verbatim>\<open>ValueError\<close> when their column counts differ.\<close>

datatype 'a cell = Number 'a | Object "'a matrix"

definition atleast_2d :: "'a matrix \<Rightarrow> 'a cell matrix" where
  "atleast_2d m =
     (if sparse m then \<lparr>sparse = False, ncols = 1, rows = [[Object m]]\<rparr>
      else \<lparr>sparse = False, ncols = ncols m, rows = map (map Number) (rows m)\<rparr>)"

definition vstack :: "'a matrix \<Rightarrow> 'a matrix \<Rightarrow> error + 'a cell matrix" where
  "vstack a b =
     (if ncols (atleast_2d a) = ncols (atleast_2d b)
      then Inr \<lparr>sparse = False, ncols = ncols (atleast_2d a),
                rows = rows (atleast_2d a) @ rows (atleast_2d b)\<rparr>
      else Inl (ValueError ''vstack''))"

subsection \<open>Module globals\<close>

record globals =
  g_atac :: "string list option"
  g_rna :: "string list option"
  g_feature :: "string list option"
  g_passed_gene :: "bool list list option"

text \<open>Line 176, \<^verbatim>\<open>np.array(feature)[passed_gene.tolist()[0]].tolist()\<close>: both names
  are looked up (\<^verbatim>\<open>feature\<close> first); the first row of the mask selects the entries of
  \<^verbatim>\<open>feature\<close>. An empty row is an empty index and selects nothing, whatever the
  length of \<^verbatim>\<open>feature\<close>; a non-empty row is a boolean mask and must have the length of
  \<^verbatim>\<open>feature\<close>. The value is not used afterwards.\<close>

definition passed_genes_of :: "globals \<Rightarrow> error + string list" where
  "passed_genes_of g =
     (case g_feature g of
        None \<Rightarrow> Inl (NameError ''feature'')
      | Some feature \<Rightarrow>
     (case g_passed_gene g of
        None \<Rightarrow> Inl (NameError ''passed_gene'')
      | Some passed_gene \<Rightarrow>
     (case passed_gene of
        [] \<Rightarrow> Inl IndexError
      | first_row # _ \<Rightarrow>
          if first_row = [] then Inr []
          else if length first_row = length feature
          then Inr (map fst (filter snd (zip feature first_row)))
          else Inl IndexError)))"

subsection \<open>Translation maps (lines 160-161)\<close>

definition atac_rna_dict :: "string list \<Rightarrow> string list \<Rightarrow> (string \<rightharpoonup> string)" where
  "atac_rna_dict atac rna = dict (zip atac rna)"

definition rna_atac_dict :: "string list \<Rightarrow> string list \<Rightarrow> (string \<rightharpoonup> string)" where
  "rna_atac_dict atac rna = dict (zip rna atac)"

subsection \<open>Barcode translation and column indices (lines 163-172)\<close>

text \<open>Lines 164-165 and 169-170: the observed barcodes of one side are translated and
  intersected with the observed barcodes of the other side. The result is the
  translated list together with \<^verbatim>\<open>barcode_overlapped\<close>.\<close>

definition translate_overlap ::
  "(string list \<Rightarrow> string list) \<Rightarrow> bool \<Rightarrow> (string \<rightharpoonup> string) \<Rightarrow> (string \<rightharpoonup> string) \<Rightarrow>
   string list \<Rightarrow> string list \<Rightarrow> error + (string list \<times> string list)" where
  "translate_overlap iter_order rna_to_atac a_r_dict r_a_dict atac_barcodes rna_barcodes =
     (if rna_to_atac then
        (case comprehension (getitem r_a_dict) rna_barcodes of
           Inl e \<Rightarrow> Inl e
         | Inr rna_atac_barcodes \<Rightarrow>
             Inr (rna_atac_barcodes, set_and_list iter_order rna_atac_barcodes atac_barcodes))
      else
        (case comprehension (getitem a_r_dict) atac_barcodes of
           Inl e \<Rightarrow> Inl e
         | Inr atac_rna_barcodes \<Rightarrow>
             Inr (atac_rna_barcodes, set_and_list iter_order atac_rna_barcodes rna_barcodes)))"

text \<open>Lines 166-167 and 171-172: the two index lists, in the order the source computes
  them. The result is \<^verbatim>\<open>(barcode_overlapped, rna_barcode_idx, atac_barcode_idx)\<close>.\<close>

definition barcode_indices ::
  "(string list \<Rightarrow> string list) \<Rightarrow> bool \<Rightarrow> (string \<rightharpoonup> string) \<Rightarrow> (string \<rightharpoonup> string) \<Rightarrow>
   string list \<Rightarrow> string list \<Rightarrow> error + (string list \<times> nat list \<times> nat list)" where
  "barcode_indices iter_order rna_to_atac a_r_dict r_a_dict atac_barcodes rna_barcodes =
     (case translate_overlap iter_order rna_to_atac a_r_dict r_a_dict
             atac_barcodes rna_barcodes of
        Inl e \<Rightarrow> Inl e
      | Inr (translated, overlapped) \<Rightarrow>
          if rna_to_atac then
            (case comprehension (list_index overlapped) overlapped of
               Inl e \<Rightarrow> Inl e
             | Inr rna_idx \<Rightarrow>
            (case comprehension (list_index overlapped) atac_barcodes of
               Inl e \<Rightarrow> Inl e
             | Inr atac_idx \<Rightarrow> Inr (overlapped, rna_idx, atac_idx)))
          else
            (case comprehension (list_index overlapped) translated of
               Inl e \<Rightarrow> Inl e
             | Inr atac_idx \<Rightarrow>
            (case comprehension (list_index overlapped) rna_barcodes of
               Inl e \<Rightarrow> Inl e
             | Inr rna_idx \<Rightarrow> Inr (overlapped, rna_idx, atac_idx))))"

subsection \<open>The pipeline (lines 94-99 and 160-184)\<close>

datatype ('a, 'f) call =
    Makedirs string
  | Write_10X_h5 string "'a matrix" "'f list" "string list" string string
  | Write_10X_h5_multiome string "'a matrix" "'f list" "string list" "'a matrix" "'f list"
      string string

record ('a, 'f) run =
  barcode_overlapped :: "string list"
  rna_barcode_idx :: "nat list"
  atac_barcode_idx :: "nat list"
  genematrix_filtered :: "'a matrix"
  peakmatrix_filtered :: "'a matrix"
  all_feature_matrix :: "'a cell matrix"
  all_features :: "'f list"
  calls :: "('a, 'f) call list"

definition barcodemap ::
  "(string list \<Rightarrow> string list) \<Rightarrow> globals \<Rightarrow> string \<Rightarrow> string \<Rightarrow> bool \<Rightarrow>
   'a matrix \<Rightarrow> 'f list \<Rightarrow> string list \<Rightarrow> 'a matrix \<Rightarrow> 'f list \<Rightarrow> string list \<Rightarrow>
   string list \<Rightarrow> string list \<Rightarrow> string \<Rightarrow> error + ('a, 'f) run" where
  "barcodemap iter_order g directory outprefix rna_to_atac
     peakmatrix atac_features atac_barcodes genematrix rna_features rna_barcodes
     atac_barcode_lib_list rna_barcode_lib_list species =
     (case g_atac g of None \<Rightarrow> Inl (NameError ''atac'') | Some atac \<Rightarrow>
     (case g_rna g of None \<Rightarrow> Inl (NameError ''rna'') | Some rna \<Rightarrow>
     (case barcode_indices iter_order rna_to_atac
             (atac_rna_dict atac rna) (rna_atac_dict atac rna) atac_barcodes rna_barcodes of
        Inl e \<Rightarrow> Inl e
      | Inr (overlapped, rna_idx, atac_idx) \<Rightarrow>
     (case select_rows genematrix rna_idx of Inl e \<Rightarrow> Inl e | Inr gene_filtered \<Rightarrow>
     (case select_rows peakmatrix atac_idx of Inl e \<Rightarrow> Inl e | Inr peak_filtered \<Rightarrow>
     (case passed_genes_of g of Inl e \<Rightarrow> Inl e | Inr passed_genes \<Rightarrow>
     (case vstack gene_filtered peak_filtered of Inl e \<Rightarrow> Inl e | Inr stacked \<Rightarrow>
        Inr \<lparr>barcode_overlapped = overlapped,
             rna_barcode_idx = rna_idx,
             atac_barcode_idx = atac_idx,
             genematrix_filtered = gene_filtered,
             peakmatrix_filtered = peak_filtered,
             all_feature_matrix = stacked,
             all_features = rna_features @ atac_features,
             calls =
               [Makedirs directory,
                Write_10X_h5 (outprefix @ ''_multiome_gene_count.h5'') gene_filtered
                  rna_features overlapped species ''Gene'',
                Write_10X_h5 (outprefix @ ''_multiome_peak_count.h5'') peak_filtered
                  atac_features overlapped species ''Peak'',
                Write_10X_h5_multiome (outprefix @ ''_multiome_feature_count.h5'')
                  gene_filtered rna_features overlapped peak_filtered atac_features
                  species ''Multiome'']\<rparr>)))))))"

subsection \<open>Peak feature names in h5 format (lines 118-120)\<close>

text \<open>
  \<^verbatim>\<open>atac_features = [re.sub("\W", "_", feature.decode()) for feature in atac_features]\<close>
  followed by \<^verbatim>\<open>[feature.encode() for feature in atac_features]\<close>. A Python \<^verbatim>\<open>bytes\<close>
  value is a \<open>string\<close> (a list of 8-bit characters), a Python \<^verbatim>\<open>str\<close> the list of its
  code points. Both codec calls use Python's default, strict UTF-8. Which code points
  beyond ASCII count as alphanumeric is a table of the Unicode database; it is the
  parameter \<open>unicode_alnum\<close>.
\<close>

text \<open>A continuation byte of a multi-byte sequence.\<close>

definition continuation :: "nat \<Rightarrow> bool" where
  "continuation b = (128 \<le> b \<and> b < 192)"

definition cons_result :: "nat \<Rightarrow> error + nat list \<Rightarrow> error + nat list" where
  "cons_result c res = (case res of Inl e \<Rightarrow> Inl e | Inr cs \<Rightarrow> Inr (c # cs))"

text \<open>Strict UTF-8 decoding of byte values: shortest form only, no surrogates, nothing
  above \<open>U+10FFFF\<close>; an ill-formed sequence raises \<^verbatim>\<open>UnicodeDecodeError\<close>.\<close>

fun utf8_decode :: "nat list \<Rightarrow> error + nat list" where
  "utf8_decode [] = Inr []"
| "utf8_decode (b0 # r) =
     (if b0 < 128 then cons_result b0 (utf8_decode r)
      else if 194 \<le> b0 \<and> b0 < 224 then
        (case r of
           b1 # r1 \<Rightarrow>
             if continuation b1
             then cons_result ((b0 - 192) * 64 + (b1 - 128)) (utf8_decode r1)
             else Inl UnicodeDecodeError
         | _ \<Rightarrow> Inl UnicodeDecodeError)
      else if 224 \<le> b0 \<and> b0 < 240 then
        (case r of
           b1 # b2 # r2 \<Rightarrow>
             if (if b0 = 224 then 160 \<le> b1 \<and> b1 < 192
                 else if b0 = 237 then 128 \<le> b1 \<and> b1 < 160
                 else continuation b1) \<and> continuation b2
             then cons_result ((b0 - 224) * 4096 + (b1 - 128) * 64 + (b2 - 128)) (utf8_decode r2)
             else Inl UnicodeDecodeError
         | _ \<Rightarrow> Inl UnicodeDecodeError)
      else if 240 \<le> b0 \<and> b0 < 245 then
        (case r of
           b1 # b2 # b3 # r3 \<Rightarrow>
             if (if b0 = 240 then 144 \<le> b1 \<and> b1 < 192
                 else if b0 = 244 then 128 \<le> b1 \<and> b1 < 144
                 else continuation b1) \<and> continuation b2 \<and> continuation b3
             then cons_result
                    ((b0 - 240) * 262144 + (b1 - 128) * 4096 + (b2 - 128) * 64 + (b3 - 128))
                    (utf8_decode r3)
             else Inl UnicodeDecodeError
         | _ \<Rightarrow> Inl UnicodeDecodeError)
      else Inl UnicodeDecodeError)"

text \<open>\<^verbatim>\<open>feature.decode()\<close>.\<close>

definition decode :: "string \<Rightarrow> error + nat list" where
  "decode bs = utf8_decode (map of_char bs)"

text \<open>The UTF-8 bytes of one code point; a surrogate raises \<^verbatim>\<open>UnicodeEncodeError\<close>
  (a value above \<open>U+10FFFF\<close> is not a code point of a Python string).\<close>

definition utf8_encode_char :: "nat \<Rightarrow> error + nat list" where
  "utf8_encode_char c =
     (if c < 128 then Inr [c]
      else if c < 2048 then Inr [192 + c div 64, 128 + c mod 64]
      else if c < 65536 then
        (if 55296 \<le> c \<and> c < 57344 then Inl UnicodeEncodeError
         else Inr [224 + c div 4096, 128 + c div 64 mod 64, 128 + c mod 64])
      else if c < 1114112 then
        Inr [240 + c div 262144, 128 + c div 4096 mod 64, 128 + c div 64 mod 64, 128 + c mod 64]
      else Inl UnicodeEncodeError)"

text \<open>\<^verbatim>\<open>feature.encode()\<close>.\<close>

definition encode :: "nat list \<Rightarrow> error + string" where
  "encode s =
     (case comprehension utf8_encode_char s of
        Inl e \<Rightarrow> Inl e
      | Inr bss \<Rightarrow> Inr (map char_of (concat bss)))"

text \<open>The class \<^verbatim>\<open>\w\<close> of a string pattern: letters, digits and the underscore in the
  ASCII range, the alphanumeric code points of the Unicode database beyond it.\<close>

definition is_word :: "(nat \<Rightarrow> bool) \<Rightarrow> nat \<Rightarrow> bool" where
  "is_word unicode_alnum c =
     (if c < 128
      then (48 \<le> c \<and> c \<le> 57) \<or> (65 \<le> c \<and> c \<le> 90) \<or> c = 95 \<or> (97 \<le> c \<and> c \<le> 122)
      else unicode_alnum c)"

text \<open>\<^verbatim>\<open>re.sub("\W", repl, s)\<close>: every match of the one-character class is replaced.\<close>

fun re_sub_W :: "(nat \<Rightarrow> bool) \<Rightarrow> nat list \<Rightarrow> nat list \<Rightarrow> nat list" where
  "re_sub_W unicode_alnum repl [] = []"
| "re_sub_W unicode_alnum repl (c # s) =
     (if is_word unicode_alnum c then [c] else repl) @ re_sub_W unicode_alnum repl s"

text \<open>Lines 119-120: all names are decoded and substituted first, then all are encoded.\<close>

definition h5_atac_features :: "(nat \<Rightarrow> bool) \<Rightarrow> string list \<Rightarrow> error + string list" where
  "h5_atac_features unicode_alnum names =
     (case comprehension
             (\<lambda>feature. case decode feature of
                           Inl e \<Rightarrow> Inl e
                         | Inr s \<Rightarrow> Inr (re_sub_W unicode_alnum (map of_char ''_'') s))
             names of
        Inl e \<Rightarrow> Inl e
      | Inr atac_features \<Rightarrow> comprehension encode atac_features)"

subsection \<open>Example inputs\<close>

text \<open>The library pairs \<open>(A1, R1), (A2, R2), (A3, R9)\<close>, as two lists aligned by line.\<close>

definition lib_atac :: "string list" where
  "lib_atac = [''A1'', ''A2'', ''A3'']"

definition lib_rna :: "string list" where
  "lib_rna = [''R1'', ''R2'', ''R9'']"

text \<open>Module globals under which a run can complete: \<^verbatim>\<open>atac\<close> and \<^verbatim>\<open>rna\<close> are bound to
  the given lists, \<^verbatim>\<open>feature\<close> to an empty list and \<^verbatim>\<open>passed_gene\<close> to a mask with one
  empty row.\<close>

definition bound_globals :: "string list \<Rightarrow> string list \<Rightarrow> globals" where
  "bound_globals atac rna =
     \<lparr>g_atac = Some atac, g_rna = Some rna, g_feature = Some [], g_passed_gene = Some [[]]\<rparr>"

section \<open>Properties\<close>

text \<open>The definitions a concrete run is evaluated with.\<close>

lemmas eval_defs =
  barcodemap_def barcode_indices_def translate_overlap_def atac_rna_dict_def rna_atac_dict_def
  dict_def getitem_def set_and_list_def select_rows_def atleast_2d_def vstack_def
  passed_genes_of_def
  lib_atac_def lib_rna_def bound_globals_def

subsection \<open>Comprehensions, lookups and positions\<close>

lemma comprehension_Inr_iff:
  "comprehension f xs = Inr ys \<longleftrightarrow> list_all2 (\<lambda>x y. f x = Inr y) xs ys"
proof (induction xs arbitrary: ys)
  case Nil
  show ?case by auto
next
  case (Cons x xs)
  show ?case
  proof (cases "f x")
    case (Inl e)
    then show ?thesis by (auto simp: list_all2_Cons1)
  next
    case fx: (Inr y)
    show ?thesis
    proof (cases "comprehension f xs")
      case (Inl e)
      with fx Cons.IH show ?thesis by (auto simp: list_all2_Cons1)
    next
      case (Inr zs)
      with fx Cons.IH [of zs] Cons.IH show ?thesis
        by (auto simp: list_all2_Cons1)
    qed
  qed
qed

lemma comprehension_length:
  "comprehension f xs = Inr ys \<Longrightarrow> length ys = length xs"
  by (simp add: comprehension_Inr_iff list_all2_lengthD)

lemma comprehension_succeeds_iff:
  "(\<exists>ys. comprehension f xs = Inr ys) \<longleftrightarrow> list_all (\<lambda>x. \<exists>y. f x = Inr y) xs"
  by (induction xs) (auto split: sum.splits)

lemma comprehension_first_error:
  "list_all (\<lambda>x. \<exists>y. f x = Inr y) pre \<Longrightarrow> f x = Inl e \<Longrightarrow>
   comprehension f (pre @ x # post) = Inl e"
  by (induction pre) auto

lemma comprehension_Inl_D:
  "comprehension f xs = Inl e \<Longrightarrow> \<exists>x \<in> set xs. f x = Inl e"
  by (induction xs) (auto split: sum.splits)

lemma fold_update_map_of:
  fixes F :: "'k \<times> 'v \<Rightarrow> ('k \<rightharpoonup> 'v) \<Rightarrow> ('k \<rightharpoonup> 'v)"
  assumes F: "\<And>k v m. F (k, v) m = m(k \<mapsto> v)"
  shows "fold F ps m0 = m0 ++ map_of (rev ps)"
proof (induction ps arbitrary: m0)
  case Nil
  show ?case by simp
next
  case (Cons p ps)
  obtain k v where p: "p = (k, v)" by (cases p)
  have "fold F (p # ps) m0 = fold F ps (F p m0)"
    by simp
  also have "\<dots> = F p m0 ++ map_of (rev ps)"
    by (rule Cons.IH)
  also have "F p m0 = m0 ++ [k \<mapsto> v]"
    by (simp add: p F)
  also have "(m0 ++ [k \<mapsto> v]) ++ map_of (rev ps) = m0 ++ ([k \<mapsto> v] ++ map_of (rev ps))"
    by (rule map_add_assoc [symmetric])
  also have "[k \<mapsto> v] ++ map_of (rev ps) = map_of (rev (p # ps))"
    by (simp add: p)
  finally show ?case .
qed

lemma dict_map_of: "dict ps = map_of (rev ps)"
  unfolding dict_def by (subst fold_update_map_of) simp_all

lemma dom_dict_zip: "dom (dict (zip ks vs)) = set (take (length vs) ks)"
proof -
  have "dom (dict (zip ks vs)) = set (map fst (zip ks vs))"
    by (simp add: dict_map_of dom_map_of_conv_image_fst)
  also have "map fst (zip ks vs) = take (min (length ks) (length vs)) ks"
    by (rule map_fst_zip_take)
  also have "\<dots> = take (length vs) ks"
    by (simp add: min_def)
  finally show ?thesis .
qed

lemma getitem_Inr_iff: "getitem d k = Inr v \<longleftrightarrow> d k = Some v"
  by (simp add: getitem_def split: option.splits)

lemma getitem_Inl_iff: "getitem d k = Inl e \<longleftrightarrow> d k = None \<and> e = KeyError k"
  by (auto simp: getitem_def split: option.splits)

lemma list_index_Inr_D: "list_index ov x = Inr i \<Longrightarrow> i < length ov \<and> ov ! i = x"
  by (induction ov arbitrary: i) (auto split: if_splits sum.splits)

lemma list_index_absent: "x \<notin> set ov \<Longrightarrow> list_index ov x = Inl (ValueError x)"
  by (induction ov) auto

lemma list_index_present: "x \<in> set ov \<Longrightarrow> \<exists>i. list_index ov x = Inr i"
  by (induction ov) (auto split: sum.splits)

lemma list_index_Inl_iff: "list_index ov x = Inl e \<longleftrightarrow> x \<notin> set ov \<and> e = ValueError x"
  by (induction ov) (auto split: sum.splits)

lemma list_index_nth: "distinct ov \<Longrightarrow> i < length ov \<Longrightarrow> list_index ov (ov ! i) = Inr i"
proof (induction ov arbitrary: i)
  case Nil
  then show ?case by simp
next
  case (Cons y ys)
  show ?case
  proof (cases i)
    case 0
    then show ?thesis by simp
  next
    case (Suc j)
    with Cons.prems have "j < length ys" "ys ! j \<in> set ys" "y \<notin> set ys" "distinct ys" by auto
    with Cons.IH [of j] Suc show ?thesis by auto
  qed
qed

lemma comprehension_list_index_self:
  "distinct ov \<Longrightarrow> comprehension (list_index ov) ov = Inr [0..<length ov]"
  by (simp add: comprehension_Inr_iff list_all2_conv_all_nth list_index_nth)

lemma comprehension_list_index_succeeds_iff:
  "(\<exists>is. comprehension (list_index ov) xs = Inr is) \<longleftrightarrow> set xs \<subseteq> set ov"
proof -
  have "(\<exists>i. list_index ov x = Inr i) \<longleftrightarrow> x \<in> set ov" for x
    using list_index_present [of x ov] list_index_Inr_D [of ov x] by auto
  then show ?thesis
    by (auto simp: comprehension_succeeds_iff list_all_iff)
qed

lemma set_set_and_list:
  assumes "\<And>zs. mset (iter_order zs) = mset zs"
  shows "set (set_and_list iter_order xs ys) = set xs \<inter> set ys"
proof -
  have "set (iter_order zs) = set zs" for zs
    using assms [of zs] by (rule mset_eq_setD)
  then show ?thesis by (auto simp: set_and_list_def)
qed

lemma distinct_set_and_list:
  assumes "\<And>zs. mset (iter_order zs) = mset zs"
  shows "distinct (set_and_list iter_order xs ys)"
proof -
  have "distinct (iter_order zs) = distinct zs" for zs
    using assms [of zs] by (rule mset_eq_imp_distinct_iff)
  then show ?thesis by (simp add: set_and_list_def)
qed

lemma length_set_and_list:
  assumes "\<And>zs. mset (iter_order zs) = mset zs"
  shows "length (set_and_list iter_order xs ys) = card (set xs \<inter> set ys)"
proof -
  have "card (set xs \<inter> set ys) = card (set (set_and_list iter_order xs ys))"
    by (simp add: set_set_and_list [OF assms])
  also have "\<dots> = length (set_and_list iter_order xs ys)"
    by (rule distinct_card) (rule distinct_set_and_list [OF assms])
  finally show ?thesis by simp
qed

subsection \<open>The overlapping barcode list\<close>

lemma translate_overlap_Inr_D:
  assumes "translate_overlap iter_order rna_to_atac ard rad atac_barcodes rna_barcodes
             = Inr (translated, overlapped)"
  shows "if rna_to_atac
         then comprehension (getitem rad) rna_barcodes = Inr translated \<and>
              overlapped = set_and_list iter_order translated atac_barcodes
         else comprehension (getitem ard) atac_barcodes = Inr translated \<and>
              overlapped = set_and_list iter_order translated rna_barcodes"
  using assms by (auto simp: translate_overlap_def split: if_splits sum.splits)

lemma card_inter_le_length:
  "card (set xs \<inter> set ys) \<le> length xs" "card (set xs \<inter> set ys) \<le> length ys"
proof -
  have "card (set xs \<inter> set ys) \<le> card (set xs)"
    by (rule card_mono) auto
  then show "card (set xs \<inter> set ys) \<le> length xs"
    using card_length [of xs] by linarith
  have "card (set xs \<inter> set ys) \<le> card (set ys)"
    by (rule card_mono) auto
  then show "card (set xs \<inter> set ys) \<le> length ys"
    using card_length [of ys] by linarith
qed

lemma translate_overlap_distinct:
  assumes "\<And>zs. mset (iter_order zs) = mset zs"
    and "translate_overlap iter_order rna_to_atac ard rad atac_barcodes rna_barcodes
           = Inr (translated, overlapped)"
  shows "distinct overlapped"
  using translate_overlap_Inr_D [OF assms(2)] distinct_set_and_list [OF assms(1)]
  by (cases rna_to_atac) simp_all

text \<open>
  C8. Whenever the overlapping barcode list is computed (the translation of line 164 or
  169 raised nothing), it has no repeated entry and its size is at most the number of
  observed ATAC barcodes and at most the number of observed RNA barcodes, in both
  directions and for every enumeration order of the hash set.
\<close>

theorem overlap_bound:
  assumes perm: "\<And>zs. mset (iter_order zs) = mset zs"
    and ov: "translate_overlap iter_order rna_to_atac ard rad atac_barcodes rna_barcodes
               = Inr (translated, overlapped)"
  shows "distinct overlapped \<and>
         length overlapped \<le> min (length atac_barcodes) (length rna_barcodes)"
proof (cases rna_to_atac)
  case True
  with translate_overlap_Inr_D [OF ov]
  have tr: "comprehension (getitem rad) rna_barcodes = Inr translated"
    and o: "overlapped = set_and_list iter_order translated atac_barcodes" by simp_all
  have "length translated = length rna_barcodes"
    using tr by (rule comprehension_length)
  then show ?thesis
    using card_inter_le_length [of translated atac_barcodes]
    by (simp add: o length_set_and_list [OF perm] distinct_set_and_list [OF perm])
next
  case False
  with translate_overlap_Inr_D [OF ov]
  have tr: "comprehension (getitem ard) atac_barcodes = Inr translated"
    and o: "overlapped = set_and_list iter_order translated rna_barcodes" by simp_all
  have "length translated = length atac_barcodes"
    using tr by (rule comprehension_length)
  then show ?thesis
    using card_inter_le_length [of translated rna_barcodes]
    by (simp add: o length_set_and_list [OF perm] distinct_set_and_list [OF perm])
qed

theorem overlap_bound_witness:
  "translate_overlap rev False
     (atac_rna_dict [''A1'', ''A2'', ''A3''] [''R1'', ''R2'', ''R9''])
     (rna_atac_dict [''A1'', ''A2'', ''A3''] [''R1'', ''R2'', ''R9''])
     [''A1'', ''A2'', ''A3''] [''R1'', ''R2'']
     = Inr ([''R1'', ''R2'', ''R9''], [''R2'', ''R1'']) \<and>
   distinct [''R2'', ''R1''] \<and>
   length [''R2'', ''R1''] \<le> min (length [''A1'', ''A2'', ''A3'']) (length [''R1'', ''R2''])"
proof -
  have p: "\<And>zs :: string list. mset (rev zs) = mset zs"
    by simp
  have h: "translate_overlap rev False
     (atac_rna_dict [''A1'', ''A2'', ''A3''] [''R1'', ''R2'', ''R9''])
     (rna_atac_dict [''A1'', ''A2'', ''A3''] [''R1'', ''R2'', ''R9''])
     [''A1'', ''A2'', ''A3''] [''R1'', ''R2'']
     = Inr ([''R1'', ''R2'', ''R9''], [''R2'', ''R1''])"
    by (simp add: translate_overlap_def atac_rna_dict_def rna_atac_dict_def dict_def
        getitem_def set_and_list_def)
  show ?thesis
    using h overlap_bound [of rev, OF p h] by simp
qed

subsection \<open>Stages of a run\<close>

lemma map_nth_upt_take:
  "n \<le> length xs \<Longrightarrow> map (\<lambda>i. xs ! i) [0..<n] = take n xs"
  by (simp add: list_eq_iff_nth_eq)

lemma select_rows_Inr_D:
  "select_rows m idx = Inr m' \<Longrightarrow>
     list_all (\<lambda>i. i < length (rows m)) idx \<and> m' = m\<lparr>rows := map (\<lambda>i. rows m ! i) idx\<rparr>"
  by (auto simp: select_rows_def split: if_splits)

lemma barcode_indices_rna_to_atac:
  assumes perm: "\<And>zs. mset (iter_order zs) = mset zs"
    and tr: "translate_overlap iter_order True ard rad atac_barcodes rna_barcodes
               = Inr (translated, overlapped)"
  shows "barcode_indices iter_order True ard rad atac_barcodes rna_barcodes =
           (case comprehension (list_index overlapped) atac_barcodes of
              Inl e \<Rightarrow> Inl e
            | Inr atac_idx \<Rightarrow> Inr (overlapped, [0..<length overlapped], atac_idx))"
proof -
  have "distinct overlapped"
    using perm tr by (rule translate_overlap_distinct)
  then show ?thesis
    by (simp add: barcode_indices_def tr comprehension_list_index_self)
qed

lemma barcode_indices_Inr_D:
  assumes "barcode_indices iter_order rna_to_atac ard rad atac_barcodes rna_barcodes
             = Inr (overlapped, rna_idx, atac_idx)"
  shows "\<exists>translated. translate_overlap iter_order rna_to_atac ard rad atac_barcodes rna_barcodes
             = Inr (translated, overlapped)"
  using assms by (auto simp: barcode_indices_def split: sum.splits if_splits)

lemma barcodemap_Inr_D:
  assumes "barcodemap iter_order g directory outprefix rna_to_atac
             peakmatrix atac_features atac_barcodes genematrix rna_features rna_barcodes
             atac_barcode_lib_list rna_barcode_lib_list species = Inr r"
  shows "\<exists>atac rna passed_genes.
           g_atac g = Some atac \<and> g_rna g = Some rna \<and>
           barcode_indices iter_order rna_to_atac (atac_rna_dict atac rna) (rna_atac_dict atac rna)
             atac_barcodes rna_barcodes
             = Inr (barcode_overlapped r, rna_barcode_idx r, atac_barcode_idx r) \<and>
           select_rows genematrix (rna_barcode_idx r) = Inr (genematrix_filtered r) \<and>
           select_rows peakmatrix (atac_barcode_idx r) = Inr (peakmatrix_filtered r) \<and>
           passed_genes_of g = Inr passed_genes \<and>
           vstack (genematrix_filtered r) (peakmatrix_filtered r) = Inr (all_feature_matrix r) \<and>
           all_features r = rna_features @ atac_features \<and>
           calls r =
             [Makedirs directory,
              Write_10X_h5 (outprefix @ ''_multiome_gene_count.h5'') (genematrix_filtered r)
                rna_features (barcode_overlapped r) species ''Gene'',
              Write_10X_h5 (outprefix @ ''_multiome_peak_count.h5'') (peakmatrix_filtered r)
                atac_features (barcode_overlapped r) species ''Peak'',
              Write_10X_h5_multiome (outprefix @ ''_multiome_feature_count.h5'')
                (genematrix_filtered r) rna_features (barcode_overlapped r)
                (peakmatrix_filtered r) atac_features species ''Multiome'']"
  using assms unfolding barcodemap_def
  by (auto split: option.splits sum.splits prod.splits)

subsection \<open>The RNA-side index list in the RNA-to-ATAC direction\<close>

text \<open>
  C10. With the rna-to-atac flag set, line 166 looks every entry of
  \<^verbatim>\<open>barcode_overlapped\<close> up in \<^verbatim>\<open>barcode_overlapped\<close> itself, so the RNA-side index
  list is \<open>[0, ..., n - 1]\<close> for \<open>n\<close> the size of the overlapping list, whatever
  positions these barcodes have among the observed RNA barcodes; a run that
  completes has filtered the gene matrix by these first \<open>n\<close> indices.
\<close>

theorem rna_to_atac_rna_index_identity:
  assumes perm: "\<And>zs. mset (iter_order zs) = mset zs"
  shows "(\<forall>overlapped rna_idx atac_idx.
            barcode_indices iter_order True ard rad atac_barcodes rna_barcodes
              = Inr (overlapped, rna_idx, atac_idx) \<longrightarrow>
            rna_idx = [0..<length overlapped]) \<and>
         (\<forall>r. barcodemap iter_order g directory outprefix True
                peakmatrix atac_features atac_barcodes genematrix rna_features rna_barcodes
                atac_barcode_lib_list rna_barcode_lib_list species = Inr r \<longrightarrow>
              rna_barcode_idx r = [0..<length (barcode_overlapped r)] \<and>
              genematrix_filtered r
                = genematrix\<lparr>rows := take (length (barcode_overlapped r)) (rows genematrix)\<rparr>)"
proof -
  have stage: "rna_idx = [0..<length overlapped]"
    if "barcode_indices iter_order True ard' rad' atac_barcodes rna_barcodes
          = Inr (overlapped, rna_idx, atac_idx)"
    for ard' rad' overlapped rna_idx atac_idx
  proof -
    from barcode_indices_Inr_D [OF that] obtain translated
      where tr: "translate_overlap iter_order True ard' rad' atac_barcodes rna_barcodes
                   = Inr (translated, overlapped)" ..
    from that show ?thesis
      unfolding barcode_indices_rna_to_atac [OF perm tr] by (auto split: sum.splits)
  qed
  have run: "rna_barcode_idx r = [0..<length (barcode_overlapped r)] \<and>
             genematrix_filtered r
               = genematrix\<lparr>rows := take (length (barcode_overlapped r)) (rows genematrix)\<rparr>"
    if "barcodemap iter_order g directory outprefix True
          peakmatrix atac_features atac_barcodes genematrix rna_features rna_barcodes
          atac_barcode_lib_list rna_barcode_lib_list species = Inr r" for r
  proof -
    from barcodemap_Inr_D [OF that] obtain atac rna
      where bi: "barcode_indices iter_order True (atac_rna_dict atac rna) (rna_atac_dict atac rna)
                   atac_barcodes rna_barcodes
                   = Inr (barcode_overlapped r, rna_barcode_idx r, atac_barcode_idx r)"
        and sel: "select_rows genematrix (rna_barcode_idx r) = Inr (genematrix_filtered r)"
      by blast
    have idx: "rna_barcode_idx r = [0..<length (barcode_overlapped r)]"
      using bi by (rule stage)
    from select_rows_Inr_D [OF sel]
    have bound: "list_all (\<lambda>i. i < length (rows genematrix)) [0..<length (barcode_overlapped r)]"
      by (simp add: idx)
    have "length (barcode_overlapped r) \<le> length (rows genematrix)"
    proof (cases "length (barcode_overlapped r)")
      case 0
      then show ?thesis by simp
    next
      case (Suc k)
      with bound show ?thesis by (simp add: list_all_iff)
    qed
    from map_nth_upt_take [OF this] select_rows_Inr_D [OF sel] idx show ?thesis by simp
  qed
  from stage run show ?thesis by blast
qed

theorem rna_to_atac_rna_index_identity_witness:
  "barcode_indices rev True (atac_rna_dict lib_atac lib_rna) (rna_atac_dict lib_atac lib_rna)
     [''A1'', ''A2''] [''R2'', ''R1'']
     = Inr ([''A1'', ''A2''], [0, 1], [0, 1]) \<and>
   [0, 1] = [0..<length [''A1'', ''A2'']] \<and>
   (case barcodemap rev (bound_globals lib_atac lib_rna) ''out'' ''s'' True
           \<lparr>sparse = False, ncols = 2, rows = [[1, 2 :: int], [3, 4]]\<rparr> [''p1'', ''p2''] [''A1'', ''A2'']
           \<lparr>sparse = False, ncols = 2, rows = [[5, 6], [7, 8], [9, 10]]\<rparr> [''g1'', ''g2'', ''g3''] [''R2'', ''R1'']
           lib_atac lib_rna ''GRCh38'' of
      Inl e \<Rightarrow> False
    | Inr r \<Rightarrow>
        barcode_overlapped r = [''A1'', ''A2''] \<and> rna_barcode_idx r = [0, 1] \<and>
        genematrix_filtered r = \<lparr>sparse = False, ncols = 2, rows = [[5, 6], [7, 8]]\<rparr>)"
proof -
  have p: "\<And>zs :: string list. mset (rev zs) = mset zs"
    by simp
  have h1: "barcode_indices rev True (atac_rna_dict lib_atac lib_rna) (rna_atac_dict lib_atac lib_rna)
     [''A1'', ''A2''] [''R2'', ''R1'']
     = Inr ([''A1'', ''A2''], [0, 1], [0, 1])"
    by (simp add: barcode_indices_def translate_overlap_def atac_rna_dict_def rna_atac_dict_def dict_def
        getitem_def set_and_list_def lib_atac_def lib_rna_def)
  obtain r where h2: "barcodemap rev (bound_globals lib_atac lib_rna) ''out'' ''s'' True
           \<lparr>sparse = False, ncols = 2, rows = [[1, 2 :: int], [3, 4]]\<rparr> [''p1'', ''p2''] [''A1'', ''A2'']
           \<lparr>sparse = False, ncols = 2, rows = [[5, 6], [7, 8], [9, 10]]\<rparr> [''g1'', ''g2'', ''g3''] [''R2'', ''R1'']
           lib_atac lib_rna ''GRCh38'' = Inr r" and ov: "barcode_overlapped r = [''A1'', ''A2'']"
    by (simp add: eval_defs)
  note id_thm = rna_to_atac_rna_index_identity [of rev, OF p]
  from id_thm h1 have c1: "[0, 1] = [0..<length [''A1'', ''A2'']]"
    by blast
  from id_thm h2 have c2: "rna_barcode_idx r = [0..<length (barcode_overlapped r)] \<and>
              genematrix_filtered r
                = \<lparr>sparse = False, ncols = 2, rows = [[5, 6], [7, 8], [9, 10]]\<rparr>\<lparr>rows := take (length (barcode_overlapped r)) (rows \<lparr>sparse = False, ncols = 2, rows = [[5, 6], [7, 8], [9, 10 :: int]]\<rparr>)\<rparr>"
    by blast
  from h1 c1 h2 c2 ov show ?thesis by simp
qed

subsection \<open>When the column-index computation completes\<close>

lemma comprehension_list_index_Inl_D:
  "comprehension (list_index ov) xs = Inl e \<Longrightarrow> \<exists>b \<in> set xs. e = ValueError b \<and> b \<notin> set ov"
  by (drule comprehension_Inl_D) (auto simp: list_index_Inl_iff)

text \<open>
  In the rna-to-atac direction with the library pairs above, observed RNA barcodes
  \<open>R1, R2\<close> and the single observed ATAC barcode \<open>A1\<close>, the computation completes
  although the translation \<open>A2\<close> of the observed \<open>R2\<close> is outside the overlapping list.
\<close>

theorem column_index_completion_counterexample:
  "barcode_indices (\<lambda>zs. zs) True (atac_rna_dict lib_atac lib_rna) (rna_atac_dict lib_atac lib_rna)
     [''A1''] [''R1'', ''R2'']
     = Inr ([''A1''], [0], [0]) \<and>
   comprehension (getitem (rna_atac_dict lib_atac lib_rna)) [''R1'', ''R2''] = Inr [''A1'', ''A2''] \<and>
   ''A2'' \<notin> set [''A1'']"
  by (simp add: barcode_indices_def translate_overlap_def atac_rna_dict_def rna_atac_dict_def dict_def
        getitem_def set_and_list_def lib_atac_def lib_rna_def)

text \<open>
  C9, amended. Once the translation has raised nothing, the column-index computation
  completes exactly when every barcode it looks up is in the overlapping list: in the
  default direction exactly when the set of translated ATAC barcodes equals the set of
  observed RNA barcodes; in the rna-to-atac direction exactly when every observed ATAC
  barcode is among the translated RNA barcodes (translated RNA barcodes outside the
  intersection are never looked up there). Otherwise the position lookup raises
  \<^verbatim>\<open>ValueError\<close> for a looked-up barcode outside the overlapping list; nothing is
  filtered out.
\<close>

theorem column_index_completion:
  assumes perm: "\<And>zs. mset (iter_order zs) = mset zs"
    and tr: "translate_overlap iter_order rna_to_atac ard rad atac_barcodes rna_barcodes
               = Inr (translated, overlapped)"
  shows "((\<exists>rna_idx atac_idx.
             barcode_indices iter_order rna_to_atac ard rad atac_barcodes rna_barcodes
               = Inr (overlapped, rna_idx, atac_idx)) \<longleftrightarrow>
          (if rna_to_atac then set atac_barcodes \<subseteq> set translated
           else set translated = set rna_barcodes)) \<and>
         (\<forall>e. barcode_indices iter_order rna_to_atac ard rad atac_barcodes rna_barcodes = Inl e \<longrightarrow>
            (\<exists>b. e = ValueError b \<and> b \<notin> set overlapped \<and>
                 b \<in> (if rna_to_atac then set atac_barcodes
                      else set translated \<union> set rna_barcodes)))"
proof (cases rna_to_atac)
  case True
  with translate_overlap_Inr_D [OF tr]
  have o: "overlapped = set_and_list iter_order translated atac_barcodes" by simp
  have set_o: "set overlapped = set translated \<inter> set atac_barcodes"
    by (simp add: o set_set_and_list [OF perm])
  have bi: "barcode_indices iter_order rna_to_atac ard rad atac_barcodes rna_barcodes =
           (case comprehension (list_index overlapped) atac_barcodes of
              Inl e \<Rightarrow> Inl e
            | Inr atac_idx \<Rightarrow> Inr (overlapped, [0..<length overlapped], atac_idx))"
    using barcode_indices_rna_to_atac [OF perm] tr True by simp
  have "(\<exists>rna_idx atac_idx.
             barcode_indices iter_order rna_to_atac ard rad atac_barcodes rna_barcodes
               = Inr (overlapped, rna_idx, atac_idx)) \<longleftrightarrow>
        (\<exists>atac_idx. comprehension (list_index overlapped) atac_barcodes = Inr atac_idx)"
    unfolding bi by (auto split: sum.splits)
  also have "\<dots> \<longleftrightarrow> set atac_barcodes \<subseteq> set translated"
    unfolding comprehension_list_index_succeeds_iff set_o by auto
  finally have ok: "(\<exists>rna_idx atac_idx.
             barcode_indices iter_order rna_to_atac ard rad atac_barcodes rna_barcodes
               = Inr (overlapped, rna_idx, atac_idx)) \<longleftrightarrow> set atac_barcodes \<subseteq> set translated" .
  have err: "\<exists>b. e = ValueError b \<and> b \<notin> set overlapped \<and> b \<in> set atac_barcodes"
    if "barcode_indices iter_order rna_to_atac ard rad atac_barcodes rna_barcodes = Inl e" for e
  proof -
    from that have "comprehension (list_index overlapped) atac_barcodes = Inl e"
      unfolding bi by (auto split: sum.splits)
    from comprehension_list_index_Inl_D [OF this] show ?thesis by blast
  qed
  from ok err True show ?thesis by simp
next
  case False
  with translate_overlap_Inr_D [OF tr]
  have o: "overlapped = set_and_list iter_order translated rna_barcodes" by simp
  have set_o: "set overlapped = set translated \<inter> set rna_barcodes"
    by (simp add: o set_set_and_list [OF perm])
  have bi: "barcode_indices iter_order rna_to_atac ard rad atac_barcodes rna_barcodes =
           (case comprehension (list_index overlapped) translated of
              Inl e \<Rightarrow> Inl e
            | Inr atac_idx \<Rightarrow>
           (case comprehension (list_index overlapped) rna_barcodes of
              Inl e \<Rightarrow> Inl e
            | Inr rna_idx \<Rightarrow> Inr (overlapped, rna_idx, atac_idx)))"
    using tr False by (simp add: barcode_indices_def)
  have "(\<exists>rna_idx atac_idx.
             barcode_indices iter_order rna_to_atac ard rad atac_barcodes rna_barcodes
               = Inr (overlapped, rna_idx, atac_idx)) \<longleftrightarrow>
        (\<exists>atac_idx. comprehension (list_index overlapped) translated = Inr atac_idx) \<and>
        (\<exists>rna_idx. comprehension (list_index overlapped) rna_barcodes = Inr rna_idx)"
    unfolding bi by (auto split: sum.splits)
  also have "\<dots> \<longleftrightarrow> set translated = set rna_barcodes"
    unfolding comprehension_list_index_succeeds_iff set_o by auto
  finally have ok: "(\<exists>rna_idx atac_idx.
             barcode_indices iter_order rna_to_atac ard rad atac_barcodes rna_barcodes
               = Inr (overlapped, rna_idx, atac_idx)) \<longleftrightarrow> set translated = set rna_barcodes" .
  have err: "\<exists>b. e = ValueError b \<and> b \<notin> set overlapped \<and> b \<in> set translated \<union> set rna_barcodes"
    if "barcode_indices iter_order rna_to_atac ard rad atac_barcodes rna_barcodes = Inl e" for e
  proof -
    from that have "comprehension (list_index overlapped) translated = Inl e \<or>
        comprehension (list_index overlapped) rna_barcodes = Inl e"
      unfolding bi by (auto split: sum.splits)
    then show ?thesis
      using comprehension_list_index_Inl_D [of overlapped translated e]
        comprehension_list_index_Inl_D [of overlapped rna_barcodes e] by blast
  qed
  from ok err False show ?thesis by simp
qed

theorem column_index_completion_witness:
  "translate_overlap (\<lambda>zs. zs) False (atac_rna_dict lib_atac lib_rna) (rna_atac_dict lib_atac lib_rna)
     [''A1'', ''A2'', ''A3''] [''R1'', ''R2'']
     = Inr ([''R1'', ''R2'', ''R9''], [''R1'', ''R2'']) \<and>
   \<not> (\<exists>rna_idx atac_idx.
        barcode_indices (\<lambda>zs. zs) False (atac_rna_dict lib_atac lib_rna) (rna_atac_dict lib_atac lib_rna)
          [''A1'', ''A2'', ''A3''] [''R1'', ''R2'']
          = Inr ([''R1'', ''R2''], rna_idx, atac_idx)) \<and>
   translate_overlap (\<lambda>zs. zs) True (atac_rna_dict lib_atac lib_rna) (rna_atac_dict lib_atac lib_rna)
     [''A1''] [''R1'', ''R2'']
     = Inr ([''A1'', ''A2''], [''A1'']) \<and>
   (\<exists>rna_idx atac_idx.
        barcode_indices (\<lambda>zs. zs) True (atac_rna_dict lib_atac lib_rna) (rna_atac_dict lib_atac lib_rna)
          [''A1''] [''R1'', ''R2'']
          = Inr ([''A1''], rna_idx, atac_idx))"
proof -
  have p: "\<And>zs :: string list. mset ((\<lambda>zs. zs) zs) = mset zs"
    by simp
  have h1: "translate_overlap (\<lambda>zs. zs) False (atac_rna_dict lib_atac lib_rna)
       (rna_atac_dict lib_atac lib_rna) [''A1'', ''A2'', ''A3''] [''R1'', ''R2'']
     = Inr ([''R1'', ''R2'', ''R9''], [''R1'', ''R2''])"
    by (simp add: translate_overlap_def atac_rna_dict_def rna_atac_dict_def dict_def
        getitem_def set_and_list_def lib_atac_def lib_rna_def)
  have h2: "translate_overlap (\<lambda>zs. zs) True (atac_rna_dict lib_atac lib_rna)
       (rna_atac_dict lib_atac lib_rna) [''A1''] [''R1'', ''R2'']
     = Inr ([''A1'', ''A2''], [''A1''])"
    by (simp add: translate_overlap_def atac_rna_dict_def rna_atac_dict_def dict_def
        getitem_def set_and_list_def lib_atac_def lib_rna_def)
  have c1: "\<not> (\<exists>rna_idx atac_idx.
        barcode_indices (\<lambda>zs. zs) False (atac_rna_dict lib_atac lib_rna) (rna_atac_dict lib_atac lib_rna)
          [''A1'', ''A2'', ''A3''] [''R1'', ''R2'']
          = Inr ([''R1'', ''R2''], rna_idx, atac_idx))"
  proof -
    have "''R9'' \<in> set [''R1'', ''R2'', ''R9'']" and "''R9'' \<notin> set [''R1'', ''R2'']"
      by simp_all
    then have ne: "set [''R1'', ''R2'', ''R9''] \<noteq> set [''R1'', ''R2'']"
      by metis
    show ?thesis
      using column_index_completion [of "\<lambda>zs. zs", OF p h1, THEN conjunct1] ne
      by (simp only: if_False simp_thms)
  qed
  have c2: "\<exists>rna_idx atac_idx.
        barcode_indices (\<lambda>zs. zs) True (atac_rna_dict lib_atac lib_rna) (rna_atac_dict lib_atac lib_rna)
          [''A1''] [''R1'', ''R2'']
          = Inr ([''A1''], rna_idx, atac_idx)"
  proof -
    have sub: "set [''A1''] \<subseteq> set [''A1'', ''A2'']"
      by simp
    show ?thesis
      using column_index_completion [of "\<lambda>zs. zs", OF p h2, THEN conjunct1] sub
      by (simp only: if_True simp_thms)
  qed
  show ?thesis
    by (rule conjI [OF h1 conjI [OF c1 conjI [OF h2 c2]]])
qed

subsection \<open>Names the function does not define\<close>

text \<open>
  With \<^verbatim>\<open>atac\<close> or \<^verbatim>\<open>rna\<close> unbound the run ends at line 160, before any barcode is
  looked at. The lists read from the two library files have no influence on the
  result: the dictionaries are built from \<^verbatim>\<open>atac\<close> and \<^verbatim>\<open>rna\<close>.
\<close>

lemma barcodemap_unbound_atac:
  "g_atac g = None \<Longrightarrow>
   barcodemap iter_order g directory outprefix rna_to_atac
     peakmatrix atac_features atac_barcodes genematrix rna_features rna_barcodes
     atac_barcode_lib_list rna_barcode_lib_list species = Inl (NameError ''atac'')"
  by (simp add: barcodemap_def)

lemma barcodemap_unbound_rna:
  "g_atac g = Some atac \<Longrightarrow> g_rna g = None \<Longrightarrow>
   barcodemap iter_order g directory outprefix rna_to_atac
     peakmatrix atac_features atac_barcodes genematrix rna_features rna_barcodes
     atac_barcode_lib_list rna_barcode_lib_list species = Inl (NameError ''rna'')"
  by (simp add: barcodemap_def)

lemma barcodemap_ignores_library_lists:
  "barcodemap iter_order g directory outprefix rna_to_atac
     peakmatrix atac_features atac_barcodes genematrix rna_features rna_barcodes
     atac_barcode_lib_list rna_barcode_lib_list species
   = barcodemap iter_order g directory outprefix rna_to_atac
     peakmatrix atac_features atac_barcodes genematrix rna_features rna_barcodes
     atac_barcode_lib_list' rna_barcode_lib_list' species"
  by (simp add: barcodemap_def)

subsection \<open>The translation maps\<close>

lemma map_fst_zip_take_other: "map fst (zip ks vs) = take (length vs) ks"
proof -
  have "map fst (zip ks vs) = take (min (length ks) (length vs)) ks"
    by (rule map_fst_zip_take)
  also have "\<dots> = take (length vs) ks"
    by (simp add: min_def)
  finally show ?thesis .
qed

lemma dict_zip_Some_D:
  assumes "dict (zip ks vs) k = Some v"
  shows "\<exists>n. n < length ks \<and> n < length vs \<and> ks ! n = k \<and> vs ! n = v"
proof -
  from assms have "(k, v) \<in> set (zip ks vs)"
    by (auto simp: dict_map_of dest: map_of_SomeD)
  then show ?thesis
    by (auto simp: in_set_zip)
qed

lemma dict_zip_distinct_keys:
  assumes "distinct (take (length vs) ks)" and "n < length ks" and "n < length vs"
  shows "dict (zip ks vs) (ks ! n) = Some (vs ! n)"
proof -
  have "distinct (map fst (rev (zip ks vs)))"
    using assms(1) by (simp add: rev_map [symmetric] map_fst_zip_take_other)
  moreover have "(ks ! n, vs ! n) \<in> set (rev (zip ks vs))"
    using assms(2,3) by (auto simp: in_set_zip)
  ultimately show ?thesis
    unfolding dict_map_of by (rule map_of_is_SomeI)
qed

text \<open>
  With a repeated entry in the RNA list, the later pair overwrites the earlier one in the
  RNA-to-ATAC map and the round trip of \<open>A1\<close> ends in \<open>A2\<close>; with an RNA list shorter
  than the ATAC list, the unpaired \<open>A2\<close> has no translation at all.
\<close>

theorem translation_round_trip_counterexample:
  "getitem (atac_rna_dict [''A1'', ''A2''] [''R1'', ''R1'']) ''A1'' = Inr ''R1'' \<and>
   getitem (rna_atac_dict [''A1'', ''A2''] [''R1'', ''R1'']) ''R1'' = Inr ''A2'' \<and>
   getitem (atac_rna_dict [''A1'', ''A2''] [''R1'']) ''A2'' = Inl (KeyError ''A2'')"
  by (simp add: atac_rna_dict_def rna_atac_dict_def dict_def getitem_def)

text \<open>
  C5, amended. For the two lists the translation maps are built from: every barcode
  among the paired entries of the ATAC list (the positions that also exist in the RNA
  list) is translated to an RNA barcode and back to itself, provided the paired
  entries of the RNA list are pairwise distinct.
\<close>

theorem translation_round_trip:
  assumes b: "b \<in> set (take (length rna) atac)"
    and d: "distinct (take (length atac) rna)"
  shows "\<exists>r. getitem (atac_rna_dict atac rna) b = Inr r \<and>
             getitem (rna_atac_dict atac rna) r = Inr b"
proof -
  from b have "b \<in> dom (dict (zip atac rna))"
    by (simp add: dom_dict_zip)
  then obtain r where r: "dict (zip atac rna) b = Some r"
    by blast
  from dict_zip_Some_D [OF r] obtain n
    where n: "n < length atac" "n < length rna" "atac ! n = b" "rna ! n = r"
    by blast
  from dict_zip_distinct_keys [OF d n(2) n(1)] n
  have "dict (zip rna atac) r = Some b"
    by simp
  with r show ?thesis
    by (auto simp: atac_rna_dict_def rna_atac_dict_def getitem_Inr_iff)
qed

theorem translation_round_trip_witness:
  "''A2'' \<in> set (take (length lib_rna) lib_atac) \<and> distinct (take (length lib_atac) lib_rna) \<and>
   getitem (atac_rna_dict lib_atac lib_rna) ''A2'' = Inr ''R2'' \<and>
   getitem (rna_atac_dict lib_atac lib_rna) ''R2'' = Inr ''A2''"
proof -
  have h1: "''A2'' \<in> set (take (length lib_rna) lib_atac)"
    by (simp add: lib_atac_def lib_rna_def)
  have h2: "distinct (take (length lib_atac) lib_rna)"
    by (simp add: lib_atac_def lib_rna_def)
  from translation_round_trip [OF h1 h2] obtain r
    where r: "getitem (atac_rna_dict lib_atac lib_rna) ''A2'' = Inr r"
      "getitem (rna_atac_dict lib_atac lib_rna) r = Inr ''A2''"
    by blast
  have "getitem (atac_rna_dict lib_atac lib_rna) ''A2'' = Inr ''R2''"
    by (simp add: atac_rna_dict_def dict_def getitem_def lib_atac_def lib_rna_def)
  with r have "r = ''R2''"
    by simp
  with r h1 h2 show ?thesis
    by simp
qed

text \<open>
  Two lists of different lengths are accepted: the run below, with two ATAC library
  lines and one RNA library line, completes.
\<close>

theorem mismatched_library_counterexample:
  "barcodemap (\<lambda>zs. zs) (bound_globals [''A1'', ''A2''] [''R1'']) ''out'' ''s'' False
     \<lparr>sparse = False, ncols = 1, rows = [[1 :: int]]\<rparr> [''p1''] [''A1'']
     \<lparr>sparse = False, ncols = 1, rows = [[2]]\<rparr> [''g1''] [''R1'']
     [''A1'', ''A2''] [''R1''] ''GRCh38''
   = Inr \<lparr>barcode_overlapped = [''R1''], rna_barcode_idx = [0], atac_barcode_idx = [0],
        genematrix_filtered = \<lparr>sparse = False, ncols = 1, rows = [[2]]\<rparr>,
        peakmatrix_filtered = \<lparr>sparse = False, ncols = 1, rows = [[1]]\<rparr>,
        all_feature_matrix = \<lparr>sparse = False, ncols = 1, rows = [[Number 2], [Number 1]]\<rparr>,
        all_features = [''g1'', ''p1''],
        calls =
          [Makedirs ''out'',
           Write_10X_h5 ''s_multiome_gene_count.h5''
             \<lparr>sparse = False, ncols = 1, rows = [[2]]\<rparr> [''g1''] [''R1''] ''GRCh38'' ''Gene'',
           Write_10X_h5 ''s_multiome_peak_count.h5''
             \<lparr>sparse = False, ncols = 1, rows = [[1]]\<rparr> [''p1''] [''R1''] ''GRCh38'' ''Peak'',
           Write_10X_h5_multiome ''s_multiome_feature_count.h5''
             \<lparr>sparse = False, ncols = 1, rows = [[2]]\<rparr> [''g1''] [''R1'']
             \<lparr>sparse = False, ncols = 1, rows = [[1]]\<rparr> [''p1''] ''GRCh38'' ''Multiome'']\<rparr>"
  by (simp add: eval_defs)

text \<open>
  C6, amended. The lengths of the two lists the translation maps are built from are
  not compared. For lists of any lengths, both maps equal the maps built from the two
  lists cut to the length of the shorter one; the keys of each map are exactly the
  entries of its key list at positions that also exist in the other list; and the whole
  run has the same result as the run on the two lists cut to that length, so a
  difference in length by itself raises nothing.
\<close>

theorem translation_map_truncates:
  "atac_rna_dict atac rna
     = atac_rna_dict (take (min (length atac) (length rna)) atac)
         (take (min (length atac) (length rna)) rna) \<and>
   rna_atac_dict atac rna
     = rna_atac_dict (take (min (length atac) (length rna)) atac)
         (take (min (length atac) (length rna)) rna) \<and>
   dom (atac_rna_dict atac rna) = set (take (length rna) atac) \<and>
   dom (rna_atac_dict atac rna) = set (take (length atac) rna) \<and>
   barcodemap iter_order
     \<lparr>g_atac = Some atac, g_rna = Some rna, g_feature = feature, g_passed_gene = passed_gene\<rparr>
     directory outprefix rna_to_atac
     peakmatrix atac_features atac_barcodes genematrix rna_features rna_barcodes
     atac_barcode_lib_list rna_barcode_lib_list species
   = barcodemap iter_order
     \<lparr>g_atac = Some (take (min (length atac) (length rna)) atac),
      g_rna = Some (take (min (length atac) (length rna)) rna),
      g_feature = feature, g_passed_gene = passed_gene\<rparr>
     directory outprefix rna_to_atac
     peakmatrix atac_features atac_barcodes genematrix rna_features rna_barcodes
     atac_barcode_lib_list rna_barcode_lib_list species"
proof -
  have "zip (take (min (length xs) (length ys)) xs) (take (min (length xs) (length ys)) ys)
          = zip xs ys" for xs :: "string list" and ys :: "string list"
    by (simp add: take_zip [symmetric])
  from this [of atac rna] this [of rna atac]
  have a: "atac_rna_dict atac rna
     = atac_rna_dict (take (min (length atac) (length rna)) atac)
         (take (min (length atac) (length rna)) rna)"
    and r: "rna_atac_dict atac rna
     = rna_atac_dict (take (min (length atac) (length rna)) atac)
         (take (min (length atac) (length rna)) rna)"
    by (simp_all add: atac_rna_dict_def rna_atac_dict_def min.commute)
  have d: "dom (atac_rna_dict atac rna) = set (take (length rna) atac)"
    "dom (rna_atac_dict atac rna) = set (take (length atac) rna)"
    by (simp_all add: atac_rna_dict_def rna_atac_dict_def dom_dict_zip)
  have "barcodemap iter_order
     \<lparr>g_atac = Some atac, g_rna = Some rna, g_feature = feature, g_passed_gene = passed_gene\<rparr>
     directory outprefix rna_to_atac
     peakmatrix atac_features atac_barcodes genematrix rna_features rna_barcodes
     atac_barcode_lib_list rna_barcode_lib_list species
   = barcodemap iter_order
     \<lparr>g_atac = Some (take (min (length atac) (length rna)) atac),
      g_rna = Some (take (min (length atac) (length rna)) rna),
      g_feature = feature, g_passed_gene = passed_gene\<rparr>
     directory outprefix rna_to_atac
     peakmatrix atac_features atac_barcodes genematrix rna_features rna_barcodes
     atac_barcode_lib_list rna_barcode_lib_list species"
    unfolding barcodemap_def passed_genes_of_def
    by (simp add: a [symmetric] r [symmetric]
        cong: sum.case_cong option.case_cong prod.case_cong)
  with a r d show ?thesis
    by (intro conjI)
qed

subsection \<open>A barcode without a translation\<close>

lemma comprehension_getitem_first_unmapped:
  assumes "\<not> set xs \<subseteq> dom d"
  shows "comprehension (getitem d) xs = Inl (KeyError (hd (filter (\<lambda>x. d x = None) xs)))"
proof -
  from assms have "\<exists>x \<in> set xs. d x = None"
    by auto
  from split_list_first_prop [OF this] obtain pre b post
    where xs: "xs = pre @ b # post" and b: "d b = None" and pre: "\<forall>y \<in> set pre. d y \<noteq> None"
    by blast
  from pre have "filter (\<lambda>x. d x = None) pre = []"
    by (simp add: filter_empty_conv)
  then have hd: "hd (filter (\<lambda>x. d x = None) xs) = b"
    by (simp add: xs b)
  from pre have "list_all (\<lambda>x. \<exists>y. getitem d x = Inr y) pre"
    by (auto simp: list_all_iff getitem_Inr_iff)
  moreover from b have "getitem d b = Inl (KeyError b)"
    by (simp add: getitem_Inl_iff)
  ultimately show ?thesis
    unfolding xs [symmetric] hd unfolding xs by (rule comprehension_first_error)
qed

text \<open>
  The lookup of line 164 is not guarded: for the observed RNA barcode \<open>R5\<close>, which the
  library lacks, the run ends with the dictionary's own \<^verbatim>\<open>KeyError\<close>.
\<close>

theorem unmapped_barcode_counterexample:
  "barcodemap (\<lambda>zs. zs) (bound_globals lib_atac lib_rna) ''out'' ''s'' True
     \<lparr>sparse = False, ncols = 2, rows = [[1, 2 :: int]]\<rparr> [''p1''] [''A1'', ''A2'']
     \<lparr>sparse = False, ncols = 2, rows = [[4, 5]]\<rparr> [''g1''] [''R1'', ''R5'']
     lib_atac lib_rna ''GRCh38''
   = Inl (KeyError ''R5'')"
  by (simp add: eval_defs)

text \<open>
  C2, amended. In every run in which \<^verbatim>\<open>atac\<close> and \<^verbatim>\<open>rna\<close> are bound and some observed
  barcode of the translated side (RNA-side when the rna-to-atac flag is set, ATAC-side
  otherwise) has no entry in the translation map, the run aborts with the
  \<^verbatim>\<open>KeyError\<close> of the unguarded dictionary lookup, carrying the first such barcode in
  list order; no barcode is dropped and nothing is written.
\<close>

theorem unmapped_barcode_raises_KeyError:
  assumes atac: "g_atac g = Some atac" and rna: "g_rna g = Some rna"
    and unmapped:
      "\<not> set (if rna_to_atac then rna_barcodes else atac_barcodes)
           \<subseteq> dom (if rna_to_atac then rna_atac_dict atac rna else atac_rna_dict atac rna)"
  shows "barcodemap iter_order g directory outprefix rna_to_atac
           peakmatrix atac_features atac_barcodes genematrix rna_features rna_barcodes
           atac_barcode_lib_list rna_barcode_lib_list species
         = Inl (KeyError (hd (filter
             (\<lambda>x. (if rna_to_atac then rna_atac_dict atac rna else atac_rna_dict atac rna) x = None)
             (if rna_to_atac then rna_barcodes else atac_barcodes))))"
proof (cases rna_to_atac)
  case True
  with unmapped have "\<not> set rna_barcodes \<subseteq> dom (rna_atac_dict atac rna)"
    by simp
  from comprehension_getitem_first_unmapped [OF this] True show ?thesis
    by (simp add: barcodemap_def barcode_indices_def translate_overlap_def atac rna)
next
  case False
  with unmapped have "\<not> set atac_barcodes \<subseteq> dom (atac_rna_dict atac rna)"
    by simp
  from comprehension_getitem_first_unmapped [OF this] False show ?thesis
    by (simp add: barcodemap_def barcode_indices_def translate_overlap_def atac rna)
qed

theorem unmapped_barcode_raises_KeyError_witness:
  "\<not> set [''A1'', ''A7'', ''A8''] \<subseteq> dom (atac_rna_dict lib_atac lib_rna) \<and>
   barcodemap (\<lambda>zs. zs) (bound_globals lib_atac lib_rna) ''out'' ''s'' False
     \<lparr>sparse = False, ncols = 3, rows = [[1, 2, 3 :: int]]\<rparr> [''p1''] [''A1'', ''A7'', ''A8'']
     \<lparr>sparse = False, ncols = 2, rows = [[4, 5]]\<rparr> [''g1''] [''R1'', ''R2'']
     lib_atac lib_rna ''GRCh38''
   = Inl (KeyError ''A7'')"
proof -
  have a: "g_atac (bound_globals lib_atac lib_rna) = Some lib_atac"
    and r: "g_rna (bound_globals lib_atac lib_rna) = Some lib_rna"
    by (simp_all add: bound_globals_def)
  have h: "\<not> set (if False then [''R1'', ''R2''] else [''A1'', ''A7'', ''A8''])
             \<subseteq> dom (if False then rna_atac_dict lib_atac lib_rna
                      else atac_rna_dict lib_atac lib_rna)"
    unfolding if_False atac_rna_dict_def dom_dict_zip by (simp add: lib_atac_def lib_rna_def)
  have first: "hd (filter
       (\<lambda>x. (if False then rna_atac_dict lib_atac lib_rna else atac_rna_dict lib_atac lib_rna) x
              = None)
       (if False then [''R1'', ''R2''] else [''A1'', ''A7'', ''A8''])) = ''A7''"
    by (simp add: atac_rna_dict_def dict_def lib_atac_def lib_rna_def)
  from h have "\<not> set [''A1'', ''A7'', ''A8''] \<subseteq> dom (atac_rna_dict lib_atac lib_rna)"
    by (simp only: if_False simp_thms)
  moreover have "barcodemap (\<lambda>zs. zs) (bound_globals lib_atac lib_rna) ''out'' ''s'' False
     \<lparr>sparse = False, ncols = 3, rows = [[1, 2, 3 :: int]]\<rparr> [''p1''] [''A1'', ''A7'', ''A8'']
     \<lparr>sparse = False, ncols = 2, rows = [[4, 5]]\<rparr> [''g1''] [''R1'', ''R2'']
     lib_atac lib_rna ''GRCh38''
   = Inl (KeyError ''A7'')"
    using unmapped_barcode_raises_KeyError [OF a r h] unfolding first .
  ultimately show ?thesis ..
qed

subsection \<open>The column-alignment example\<close>

text \<open>
  C1. Default direction, observed ATAC barcodes \<open>A1, A2, A3\<close>, observed RNA barcodes
  \<open>R1, R2\<close>, library pairs \<open>(A1, R1), (A2, R2), (A3, R9)\<close>. The claim expects the overlap
  \<open>{R1, R2}\<close> and two filtered matrices; the run instead ends at line 171, where the
  translated \<open>R9\<close> is looked up in the overlapping list.
\<close>

theorem column_alignment_example_raises:
  "barcodemap (\<lambda>zs. zs) (bound_globals lib_atac lib_rna) ''out'' ''s'' False
     \<lparr>sparse = False, ncols = 3, rows = [[1, 2, 3 :: int]]\<rparr> [''p1''] [''A1'', ''A2'', ''A3'']
     \<lparr>sparse = False, ncols = 2, rows = [[4, 5]]\<rparr> [''g1''] [''R1'', ''R2'']
     lib_atac lib_rna ''GRCh38''
   = Inl (ValueError ''R9'')"
  by (simp add: eval_defs)

text \<open>The outcome does not depend on the enumeration order of the set.\<close>

lemma column_alignment_example_any_order:
  assumes perm: "\<And>zs. mset (iter_order zs) = mset zs"
  shows "barcode_indices iter_order False (atac_rna_dict lib_atac lib_rna)
           (rna_atac_dict lib_atac lib_rna) [''A1'', ''A2'', ''A3''] [''R1'', ''R2'']
         = Inl (ValueError ''R9'')"
proof -
  define ov where "ov = set_and_list iter_order [''R1'', ''R2'', ''R9''] [''R1'', ''R2'']"
  have tr: "translate_overlap iter_order False (atac_rna_dict lib_atac lib_rna)
           (rna_atac_dict lib_atac lib_rna) [''A1'', ''A2'', ''A3''] [''R1'', ''R2'']
         = Inr ([''R1'', ''R2'', ''R9''], ov)"
    by (simp add: translate_overlap_def atac_rna_dict_def rna_atac_dict_def dict_def
        getitem_def lib_atac_def lib_rna_def ov_def)
  have set_ov: "set ov = set [''R1'', ''R2'', ''R9''] \<inter> set [''R1'', ''R2'']"
    unfolding ov_def by (rule set_set_and_list [OF perm])
  have in1: "''R1'' \<in> set ov" and in2: "''R2'' \<in> set ov" and out: "''R9'' \<notin> set ov"
    unfolding set_ov by simp_all
  have "list_all (\<lambda>x. \<exists>y. list_index ov x = Inr y) [''R1'', ''R2'']"
    using list_index_present [OF in1] list_index_present [OF in2] by simp
  moreover have "list_index ov ''R9'' = Inl (ValueError ''R9'')"
    using out by (rule list_index_absent)
  ultimately have "comprehension (list_index ov) ([''R1'', ''R2''] @ ''R9'' # [])
                     = Inl (ValueError ''R9'')"
    by (rule comprehension_first_error)
  then show ?thesis
    by (simp add: barcode_indices_def tr)
qed

subsection \<open>The writer calls\<close>

text \<open>
  C3. A completed run with directory \<open>results\<close> and prefix \<open>sample\<close>: the directory is
  created, and the three writers are called with the file names
  \<open>sample_multiome_gene_count.h5\<close>, \<open>sample_multiome_peak_count.h5\<close> and
  \<open>sample_multiome_feature_count.h5\<close>, which do not contain the directory. Genome
  and datatype labels are as the claim states.
\<close>

theorem output_files_example:
  "(case barcodemap (\<lambda>zs. zs) (bound_globals lib_atac lib_rna) ''results'' ''sample'' False
           \<lparr>sparse = False, ncols = 2, rows = [[1, 2 :: int], [3, 4]]\<rparr> [''p1'', ''p2''] [''A1'', ''A2'']
           \<lparr>sparse = False, ncols = 2, rows = [[5, 6], [7, 8]]\<rparr> [''g1'', ''g2''] [''R1'', ''R2'']
           lib_atac lib_rna ''GRCh38'' of
      Inl e \<Rightarrow> False
    | Inr r \<Rightarrow>
        calls r =
          [Makedirs ''results'',
           Write_10X_h5 ''sample_multiome_gene_count.h5''
             \<lparr>sparse = False, ncols = 2, rows = [[5, 6], [7, 8]]\<rparr> [''g1'', ''g2''] [''R1'', ''R2'']
             ''GRCh38'' ''Gene'',
           Write_10X_h5 ''sample_multiome_peak_count.h5''
             \<lparr>sparse = False, ncols = 2, rows = [[1, 2], [3, 4]]\<rparr> [''p1'', ''p2''] [''R1'', ''R2'']
             ''GRCh38'' ''Peak'',
           Write_10X_h5_multiome ''sample_multiome_feature_count.h5''
             \<lparr>sparse = False, ncols = 2, rows = [[5, 6], [7, 8]]\<rparr> [''g1'', ''g2''] [''R1'', ''R2'']
             \<lparr>sparse = False, ncols = 2, rows = [[1, 2], [3, 4]]\<rparr> [''p1'', ''p2'']
             ''GRCh38'' ''Multiome''])"
  by (simp add: eval_defs)

subsection \<open>The stacked matrix\<close>

text \<open>In every completed run on dense arrays the stacked matrix has one row per index
  entry: the rows count observed barcodes, not features. On \<^verbatim>\<open>csc_matrix\<close> operands it
  is a column of two objects.\<close>

lemma barcode_indices_lengths:
  assumes bi: "barcode_indices iter_order rna_to_atac ard rad atac_barcodes rna_barcodes
             = Inr (overlapped, rna_idx, atac_idx)"
  shows "length atac_idx = length atac_barcodes \<and>
         length rna_idx = (if rna_to_atac then length overlapped else length rna_barcodes)"
proof -
  from barcode_indices_Inr_D [OF bi] obtain translated
    where tr: "translate_overlap iter_order rna_to_atac ard rad atac_barcodes rna_barcodes
                 = Inr (translated, overlapped)" ..
  show ?thesis
  proof (cases rna_to_atac)
    case True
    with bi tr obtain
      "comprehension (list_index overlapped) overlapped = Inr rna_idx"
      "comprehension (list_index overlapped) atac_barcodes = Inr atac_idx"
      by (auto simp: barcode_indices_def split: sum.splits)
    with True show ?thesis
      by (simp add: comprehension_length)
  next
    case False
    with translate_overlap_Inr_D [OF tr]
    have "comprehension (getitem ard) atac_barcodes = Inr translated"
      by simp
    then have len: "length translated = length atac_barcodes"
      by (rule comprehension_length)
    from False bi tr obtain
      "comprehension (list_index overlapped) translated = Inr atac_idx"
      "comprehension (list_index overlapped) rna_barcodes = Inr rna_idx"
      by (auto simp: barcode_indices_def split: sum.splits)
    with False len show ?thesis
      by (simp add: comprehension_length)
  qed
qed

lemma stacked_shape:
  assumes "barcodemap iter_order g directory outprefix rna_to_atac
             peakmatrix atac_features atac_barcodes genematrix rna_features rna_barcodes
             atac_barcode_lib_list rna_barcode_lib_list species = Inr r"
  shows "shape (all_feature_matrix r) =
           ((if sparse genematrix then 1
             else if rna_to_atac then length (barcode_overlapped r) else length rna_barcodes)
              + (if sparse peakmatrix then 1 else length atac_barcodes),
            if sparse genematrix then 1 else ncols genematrix)"
proof -
  from barcodemap_Inr_D [OF assms] obtain atac rna
    where bi: "barcode_indices iter_order rna_to_atac (atac_rna_dict atac rna)
                 (rna_atac_dict atac rna) atac_barcodes rna_barcodes
                 = Inr (barcode_overlapped r, rna_barcode_idx r, atac_barcode_idx r)"
      and g: "select_rows genematrix (rna_barcode_idx r) = Inr (genematrix_filtered r)"
      and p: "select_rows peakmatrix (atac_barcode_idx r) = Inr (peakmatrix_filtered r)"
      and v: "vstack (genematrix_filtered r) (peakmatrix_filtered r) = Inr (all_feature_matrix r)"
    by blast
  from select_rows_Inr_D [OF g] select_rows_Inr_D [OF p]
  have gf: "rows (genematrix_filtered r) = map (\<lambda>i. rows genematrix ! i) (rna_barcode_idx r)"
    and gc: "ncols (genematrix_filtered r) = ncols genematrix"
    and gs: "sparse (genematrix_filtered r) = sparse genematrix"
    and pf: "rows (peakmatrix_filtered r) = map (\<lambda>i. rows peakmatrix ! i) (atac_barcode_idx r)"
    and ps: "sparse (peakmatrix_filtered r) = sparse peakmatrix"
    by simp_all
  from v have "all_feature_matrix r
      = \<lparr>sparse = False, ncols = ncols (atleast_2d (genematrix_filtered r)),
         rows = rows (atleast_2d (genematrix_filtered r))
                  @ rows (atleast_2d (peakmatrix_filtered r))\<rparr>"
    by (simp add: vstack_def split: if_splits)
  then have "shape (all_feature_matrix r)
          = ((if sparse genematrix then 1 else length (rna_barcode_idx r))
               + (if sparse peakmatrix then 1 else length (atac_barcode_idx r)),
             if sparse genematrix then 1 else ncols genematrix)"
    by (simp add: shape_def atleast_2d_def gf gc gs pf ps)
  with barcode_indices_lengths [OF bi] show ?thesis
    by simp
qed

text \<open>
  C4. A completed run with three gene features, two peak features and one shared
  barcode: \<^verbatim>\<open>genematrix[np.array(rna_barcode_idx), :]\<close> selects rows, so each filtered
  matrix has one row per observed barcode and the stacked matrix has two rows, not
  five; the list of row identifiers has five entries. The first conjunct is the run on
  dense arrays, the second the same run on \<^verbatim>\<open>csc_matrix\<close> operands, where the stacked
  matrix is a column of the two filtered matrices as objects.
\<close>

theorem stacking_shape_example:
  "(case barcodemap (\<lambda>zs. zs) (bound_globals lib_atac lib_rna) ''out'' ''s'' False
           \<lparr>sparse = False, ncols = 1, rows = [[1 :: int], [2]]\<rparr> [''p1'', ''p2''] [''A1'']
           \<lparr>sparse = False, ncols = 1, rows = [[3], [4], [5]]\<rparr> [''g1'', ''g2'', ''g3''] [''R1'']
           lib_atac lib_rna ''GRCh38'' of
      Inl e \<Rightarrow> False
    | Inr r \<Rightarrow>
        barcode_overlapped r = [''R1''] \<and>
        genematrix_filtered r = \<lparr>sparse = False, ncols = 1, rows = [[3]]\<rparr> \<and>
        peakmatrix_filtered r = \<lparr>sparse = False, ncols = 1, rows = [[1]]\<rparr> \<and>
        all_feature_matrix r
          = \<lparr>sparse = False, ncols = 1, rows = [[Number 3], [Number 1]]\<rparr> \<and>
        shape (all_feature_matrix r) = (2, 1) \<and>
        all_features r = [''g1'', ''g2'', ''g3'', ''p1'', ''p2'']) \<and>
   (case barcodemap (\<lambda>zs. zs) (bound_globals lib_atac lib_rna) ''out'' ''s'' False
           \<lparr>sparse = True, ncols = 1, rows = [[1 :: int], [2]]\<rparr> [''p1'', ''p2''] [''A1'']
           \<lparr>sparse = True, ncols = 1, rows = [[3], [4], [5]]\<rparr> [''g1'', ''g2'', ''g3''] [''R1'']
           lib_atac lib_rna ''GRCh38'' of
      Inl e \<Rightarrow> False
    | Inr r \<Rightarrow>
        barcode_overlapped r = [''R1''] \<and>
        genematrix_filtered r = \<lparr>sparse = True, ncols = 1, rows = [[3]]\<rparr> \<and>
        peakmatrix_filtered r = \<lparr>sparse = True, ncols = 1, rows = [[1]]\<rparr> \<and>
        all_feature_matrix r
          = \<lparr>sparse = False, ncols = 1,
             rows = [[Object \<lparr>sparse = True, ncols = 1, rows = [[3]]\<rparr>],
                     [Object \<lparr>sparse = True, ncols = 1, rows = [[1]]\<rparr>]]\<rparr> \<and>
        shape (all_feature_matrix r) = (2, 1) \<and>
        all_features r = [''g1'', ''g2'', ''g3'', ''p1'', ''p2''])"
  by (simp add: eval_defs shape_def)

subsection \<open>Normalisation of peak feature names\<close>

lemma re_sub_W_single:
  "re_sub_W u [r] s = map (\<lambda>c. if is_word u c then c else r) s"
  by (induction s) simp_all

lemma utf8_encode_char_succeeds_iff:
  "(\<exists>bs. utf8_encode_char c = Inr bs) \<longleftrightarrow> c < 55296 \<or> (57344 \<le> c \<and> c < 1114112)"
  by (auto simp: utf8_encode_char_def)

lemma cons_result_Inr_iff:
  "cons_result c res = Inr cs \<longleftrightarrow> (\<exists>cs'. res = Inr cs' \<and> cs = c # cs')"
  by (auto simp: cons_result_def split: sum.splits)

lemma utf8_decode_scalar:
  "utf8_decode bs = Inr cs \<Longrightarrow> list_all (\<lambda>c. c < 55296 \<or> (57344 \<le> c \<and> c < 1114112)) cs"
proof (induction bs arbitrary: cs rule: utf8_decode.induct)
  case 1
  then show ?case by simp
next
  case (2 b0 r)
  consider (one) "b0 < 128"
    | (two) "194 \<le> b0" "b0 < 224"
    | (three) "224 \<le> b0" "b0 < 240"
    | (four) "240 \<le> b0" "b0 < 245"
    | (bad) "128 \<le> b0" "b0 < 194 \<or> 245 \<le> b0"
    by linarith
  then show ?case
  proof cases
    case one
    with "2.prems" "2.IH"(1) show ?thesis
      by (auto simp: cons_result_Inr_iff)
  next
    case two
    with "2.prems" obtain b1 r1 cs' where r: "r = b1 # r1" and c: "continuation b1"
      and rec: "utf8_decode r1 = Inr cs'" and cs: "cs = ((b0 - 192) * 64 + (b1 - 128)) # cs'"
      by (auto simp: cons_result_Inr_iff split: list.splits if_splits)
    from two c have "(b0 - 192) * 64 + (b1 - 128) < 55296"
      unfolding continuation_def by arith
    moreover from two r c rec "2.IH"(2)
    have "list_all (\<lambda>c. c < 55296 \<or> (57344 \<le> c \<and> c < 1114112)) cs'"
      by simp
    ultimately show ?thesis by (simp add: cs)
  next
    case three
    with "2.prems" obtain b1 b2 r2 cs' where r: "r = b1 # b2 # r2"
      and c: "(if b0 = 224 then 160 \<le> b1 \<and> b1 < 192
                 else if b0 = 237 then 128 \<le> b1 \<and> b1 < 160
                 else continuation b1) \<and> continuation b2"
      and rec: "utf8_decode r2 = Inr cs'"
      and cs: "cs = ((b0 - 224) * 4096 + (b1 - 128) * 64 + (b2 - 128)) # cs'"
      by (auto simp: cons_result_Inr_iff split: list.splits if_splits)
    from three c have "(b0 - 224) * 4096 + (b1 - 128) * 64 + (b2 - 128) < 55296 \<or>
        (57344 \<le> (b0 - 224) * 4096 + (b1 - 128) * 64 + (b2 - 128) \<and>
         (b0 - 224) * 4096 + (b1 - 128) * 64 + (b2 - 128) < 1114112)"
      unfolding continuation_def by (cases "b0 = 224"; cases "b0 = 237"; simp; arith)
    moreover from three r c rec "2.IH"(3) have "list_all (\<lambda>c. c < 55296 \<or> (57344 \<le> c \<and> c < 1114112)) cs'"
      by simp
    ultimately show ?thesis by (simp add: cs)
  next
    case four
    with "2.prems" obtain b1 b2 b3 r3 cs' where r: "r = b1 # b2 # b3 # r3"
      and c: "(if b0 = 240 then 144 \<le> b1 \<and> b1 < 192
                 else if b0 = 244 then 128 \<le> b1 \<and> b1 < 144
                 else continuation b1) \<and> continuation b2 \<and> continuation b3"
      and rec: "utf8_decode r3 = Inr cs'"
      and cs: "cs = ((b0 - 240) * 262144 + (b1 - 128) * 4096 + (b2 - 128) * 64 + (b3 - 128)) # cs'"
      by (auto simp: cons_result_Inr_iff split: list.splits if_splits)
    from four c have "57344 \<le> (b0 - 240) * 262144 + (b1 - 128) * 4096 + (b2 - 128) * 64 + (b3 - 128) \<and>
         (b0 - 240) * 262144 + (b1 - 128) * 4096 + (b2 - 128) * 64 + (b3 - 128) < 1114112"
      unfolding continuation_def by (cases "b0 = 240"; cases "b0 = 244"; simp; arith)
    moreover from four r c rec "2.IH"(4)
    have "list_all (\<lambda>c. c < 55296 \<or> (57344 \<le> c \<and> c < 1114112)) cs'"
      by simp
    ultimately show ?thesis by (simp add: cs)
  next
    case bad
    with "2.prems" show ?thesis by auto
  qed
qed


lemma comprehension_post:
  "comprehension (\<lambda>x. case f x of Inl e \<Rightarrow> Inl e | Inr y \<Rightarrow> Inr (g y)) xs =
     (case comprehension f xs of Inl e \<Rightarrow> Inl e | Inr ys \<Rightarrow> Inr (map g ys))"
  by (induction xs) (auto split: sum.splits)

lemma encode_succeeds:
  assumes "list_all (\<lambda>c. c < 55296 \<or> (57344 \<le> c \<and> c < 1114112)) s"
  shows "\<exists>b. encode s = Inr b"
proof -
  from assms have "list_all (\<lambda>c. \<exists>bs. utf8_encode_char c = Inr bs) s"
    by (simp add: utf8_encode_char_succeeds_iff)
  then obtain bss where "comprehension utf8_encode_char s = Inr bss"
    unfolding comprehension_succeeds_iff [symmetric] ..
  then show ?thesis
    by (simp add: encode_def)
qed

lemma normalised_encodable:
  assumes "decode name = Inr s"
  shows "\<exists>b. encode (map (\<lambda>c. if is_word u c then c else 95) s) = Inr b"
proof -
  from assms have "list_all (\<lambda>c. c < 55296 \<or> (57344 \<le> c \<and> c < 1114112)) s"
    unfolding decode_def by (rule utf8_decode_scalar)
  then have "list_all (\<lambda>c. c < 55296 \<or> (57344 \<le> c \<and> c < 1114112))
               (map (\<lambda>c. if is_word u c then c else 95) s)"
    by (auto simp: list_all_iff)
  then show ?thesis
    by (rule encode_succeeds)
qed

text \<open>
  C7. In h5 format, whenever the peak feature names decode, the names used afterwards
  are, one for one, the UTF-8 encodings of the decoded names with every non-word
  character replaced by an underscore and every word character kept; the loading does
  not fail after decoding. In particular \<open>chr10:100020591-100020841\<close> becomes
  \<open>chr10_100020591_100020841\<close>, whatever the Unicode table says beyond ASCII.
\<close>

theorem h5_peak_feature_normalisation:
  "(\<forall>names decoded.
      comprehension decode names = Inr decoded \<longrightarrow>
      (\<exists>out. h5_atac_features u names = Inr out \<and>
         list_all2
           (\<lambda>s b. encode (map (\<lambda>c. if is_word u c then c else of_char CHR ''_'') s) = Inr b)
           decoded out)) \<and>
   h5_atac_features u [''chr10:100020591-100020841''] = Inr [''chr10_100020591_100020841'']"
proof (intro conjI allI impI)
  fix names decoded
  assume dec: "comprehension decode names = Inr decoded"
  let ?g = "\<lambda>s. map (\<lambda>c. if is_word u c then c else 95) s"
  have first: "comprehension
          (\<lambda>feature. case decode feature of
                        Inl e \<Rightarrow> Inl e
                      | Inr s \<Rightarrow> Inr (re_sub_W u (map of_char ''_'') s)) names
        = Inr (map ?g decoded)"
    by (simp add: comprehension_post dec re_sub_W_single)
  have "list_all (\<lambda>s. \<exists>b. encode s = Inr b) (map ?g decoded)"
  proof -
    have "\<exists>b. encode (?g s) = Inr b" if "s \<in> set decoded" for s
    proof -
      from that dec obtain name where "decode name = Inr s"
        by (auto simp: comprehension_Inr_iff list_all2_conv_all_nth in_set_conv_nth)
      then show ?thesis by (rule normalised_encodable)
    qed
    then show ?thesis by (simp add: list_all_iff)
  qed
  then obtain out where out: "comprehension encode (map ?g decoded) = Inr out"
    unfolding comprehension_succeeds_iff [symmetric] ..
  then have "list_all2 (\<lambda>s b. encode (?g s) = Inr b) decoded out"
    by (simp add: comprehension_Inr_iff list_all2_map1)
  moreover have "h5_atac_features u names = Inr out"
    by (simp add: h5_atac_features_def first out del: list.map)
  moreover have "of_char CHR ''_'' = (95 :: nat)"
    by simp
  ultimately show "\<exists>out. h5_atac_features u names = Inr out \<and>
         list_all2
           (\<lambda>s b. encode (map (\<lambda>c. if is_word u c then c else of_char CHR ''_'') s) = Inr b)
           decoded out"
    by (simp only:) blast
next
  show "h5_atac_features u [''chr10:100020591-100020841''] = Inr [''chr10_100020591_100020841'']"
    by (simp add: h5_atac_features_def decode_def encode_def is_word_def utf8_encode_char_def
        cons_result_def char_of_def bit_Suc_0_iff)
qed

theorem h5_peak_feature_normalisation_witness:
  "comprehension decode [''chr1:5-9'', ''chrX_7'']
     = Inr [[99, 104, 114, 49, 58, 53, 45, 57], [99, 104, 114, 88, 95, 55]] \<and>
   h5_atac_features (\<lambda>c. False) [''chr1:5-9'', ''chrX_7''] = Inr [''chr1_5_9'', ''chrX_7'']"
proof -
  have dec: "comprehension decode [''chr1:5-9'', ''chrX_7'']
     = Inr [[99, 104, 114, 49, 58, 53, 45, 57], [99, 104, 114, 88, 95, 55]]"
    by (simp add: decode_def cons_result_def)
  from h5_peak_feature_normalisation [of "\<lambda>c. False", THEN conjunct1, rule_format, OF dec]
  obtain out where out: "h5_atac_features (\<lambda>c. False) [''chr1:5-9'', ''chrX_7''] = Inr out"
    and enc: "list_all2
           (\<lambda>s b. encode (map (\<lambda>c. if is_word (\<lambda>c. False) c then c else of_char CHR ''_'') s) = Inr b)
           [[99, 104, 114, 49, 58, 53, 45, 57], [99, 104, 114, 88, 95, 55]] out"
    by blast
  from enc have "out = [''chr1_5_9'', ''chrX_7'']"
    by (simp add: list_all2_Cons1 is_word_def encode_def utf8_encode_char_def char_of_def
        bit_Suc_0_iff)
  with dec out show ?thesis by simp
qed

end
